theory Spec2Isabelle
  imports Main "HOL-Library.Word" "HOL-Library.Sublist"
begin

section \<open>Values of the Go program\<close>

text \<open>
  A program counter is a \<open>uintptr\<close>. Errors created by \<open>errors.New\<close>, \<open>errors.Join\<close> and
  other packages are pointers, which Go compares by address, so each carries the address of
  its allocation; a \<open>lazyerror\<close> is a struct value, compared field by field.
\<close>

type_synonym uintptr = "64 word"
type_synonym addr = nat

text \<open>
  A value of the interface type \<open>error\<close>: \<open>nil\<close>, or one of the concrete error types the
  package meets.
  \<^item> \<open>errorString a s\<close>: the \<open>*errors.errorString\<close> that \<open>errors.New(s)\<close> allocates at \<open>a\<close>;
  \<^item> \<open>joinError a errs\<close>: the \<open>*errors.joinError\<close> of \<open>errors.Join\<close>; it has \<open>Unwrap() []error\<close>
    and no \<open>Unwrap() error\<close>;
  \<^item> \<open>wrapErrors a msg errs\<close>: a \<open>*fmt.wrapErrors\<close>, or an error of any other type that has
    \<open>Unwrap() []error\<close>, with the string its \<open>Error()\<close> returns;
  \<^item> \<open>otherError a msg u\<close>: an error of any other type (for instance \<open>*fmt.wrapError\<close>), with
    the string its \<open>Error()\<close> returns and the result of its \<open>Unwrap() error\<close> method (\<open>nil\<close>
    when it has none);
  \<^item> \<open>lazyerror err p\<close>: the struct \<open>lazyerror{err: err, pc: p}\<close> of this package.
\<close>

datatype error =
    nil
  | errorString addr string
  | joinError addr "error list"
  | wrapErrors addr string "error list"
  | otherError addr string error
  | lazyerror error uintptr

text \<open>
  A panic: \<open>panic(v)\<close> with a string value, or one of the two run-time panics that calling
  \<open>Error()\<close> can meet (a method call on a nil interface, an index out of range).
\<close>

datatype panic = PanicValue string | NilDereference | IndexOutOfRange

text \<open>The arguments \<open>lazyerror.Error\<close> passes to \<open>fmt.Sprintf\<close> are strings and an \<open>int\<close>.\<close>

datatype any = AnyString string | AnyInt int

text \<open>\<open>runtime.Frame\<close>, with the three fields the package reads.\<close>

record Frame =
  File :: string
  Line :: int
  Function :: string

text \<open>The package-level variables \<open>FileSegments\<close>, \<open>FunctionSegments\<close> and \<open>Format\<close>.\<close>

record globals =
  FileSegments :: int
  FunctionSegments :: int
  Format :: string

definition init_globals :: globals where
  "init_globals =
     \<lparr>FileSegments = 1, FunctionSegments = 1, Format = ''%s:%d (%s): %s''\<rparr>"

text \<open>
  What the Go runtime and \<open>fmt\<close> contribute at rendering time, taken as parameters:
  \<open>CallersFrames_Next p\<close> is the frame that \<open>runtime.CallersFrames([]uintptr{p}).Next()\<close>
  returns, and \<open>Sprintf_other\<close> is \<open>fmt.Sprintf\<close> on the formats that \<open>doPrintf\<close> below
  does not cover.
\<close>

record runtime =
  CallersFrames_Next :: "uintptr \<Rightarrow> Frame"
  Sprintf_other :: "string \<Rightarrow> any list \<Rightarrow> string"

text \<open>
  The call stack is the list of return program counters, innermost frame first. The
  program counters inside the library are parameters as well: the one inside
  \<open>runtime.Callers\<close>, the call of \<open>runtime.Callers\<close> in \<open>pc\<close>, and the call of \<open>pc\<close> in each of
  the four constructors.
\<close>

type_synonym stack = "uintptr list"

record callsites =
  in_Callers :: uintptr
  pc_calls_Callers :: uintptr
  New_calls_pc :: uintptr
  Error_calls_pc :: uintptr
  Errorf_calls_pc :: uintptr
  Join_calls_pc :: uintptr

section \<open>Package \<open>strings\<close>\<close>

text \<open>\<open>strings.IndexByte(s, c)\<close>: the index of the first \<open>c\<close> in \<open>s\<close>, or \<open>-1\<close>.\<close>

fun strings_IndexByte :: "string \<Rightarrow> char \<Rightarrow> int" where
  "strings_IndexByte [] c = - 1"
| "strings_IndexByte (x # xs) c =
     (if x = c then 0
      else (let r = strings_IndexByte xs c in if r < 0 then - 1 else r + 1))"

text \<open>
  \<open>strings.LastIndexByte(s, c)\<close>: the loop \<open>for i := len(s) - 1; i >= 0; i--\<close> that returns
  the first \<open>i\<close> with \<open>s[i] == c\<close>, or \<open>-1\<close>.
\<close>

fun LastIndexByte_loop :: "string \<Rightarrow> char \<Rightarrow> nat \<Rightarrow> int" where
  "LastIndexByte_loop s c 0 = - 1"
| "LastIndexByte_loop s c (Suc i) =
     (if s ! i = c then int i else LastIndexByte_loop s c i)"

definition strings_LastIndexByte :: "string \<Rightarrow> char \<Rightarrow> int" where
  "strings_LastIndexByte s c = LastIndexByte_loop s c (length s)"

text \<open>
  \<open>strings.SplitAfter(s, sep)\<close> for a separator of one byte: while \<open>sep\<close> occurs at index
  \<open>m\<close>, cut \<open>s[:m+1]\<close> off; the rest is the last piece.
\<close>

function strings_SplitAfter :: "string \<Rightarrow> char \<Rightarrow> string list" where
  "strings_SplitAfter s sep =
     (let m = strings_IndexByte s sep in
      if m < 0 then [s]
      else take (nat m + 1) s # strings_SplitAfter (drop (nat m + 1) s) sep)"
  by pat_completeness auto
termination
proof (relation "measure (\<lambda>(s, sep). length s)")
  show "wf (measure (\<lambda>(s, sep). length s))" by simp
next
  fix s :: string and sep :: char and x :: int
  assume "x = strings_IndexByte s sep" and "\<not> x < 0"
  then have "s \<noteq> []" by (cases s) auto
  then show "((drop (nat x + 1) s, sep), (s, sep)) \<in> measure (\<lambda>(s, sep). length s)"
    by simp
qed

declare strings_SplitAfter.simps [simp del]

text \<open>\<open>strings.Join(elems, sep)\<close>.\<close>

fun strings_Join :: "string list \<Rightarrow> string \<Rightarrow> string" where
  "strings_Join [] sep = []"
| "strings_Join [x] sep = x"
| "strings_Join (x # y # ys) sep = x @ sep @ strings_Join (y # ys) sep"

section \<open>\<open>shorten\<close>\<close>

text \<open>
  The \<open>switch\<close> of \<open>shorten\<close>: a case whose \<open>if\<close> fails leaves the switch and reaches the final
  \<open>return path\<close>, as does a negative \<open>segments\<close>. Neither \<open>i + 1\<close> (with \<open>i\<close> an index of
  \<open>path\<close>) nor \<open>len(p) - segments\<close> (both positive) can overflow an \<open>int\<close>, so \<open>segments\<close> is
  an integer here.
\<close>

definition shorten :: "string \<Rightarrow> int \<Rightarrow> string" where
  "shorten path segments =
     (if segments = 0 then []
      else if segments = 1 then
        (let i = strings_LastIndexByte path (CHR ''/'') in
         if i \<noteq> - 1 then drop (nat (i + 1)) path else path)
      else if segments > 1 then
        (let p = strings_SplitAfter path (CHR ''/'');
             i = int (length p) - segments in
         if i > 0 then strings_Join (drop (nat i) p) [] else path)
      else path)"

section \<open>Package \<open>fmt\<close>\<close>

text \<open>Decimal digits of an integer, as the verbs \<open>%d\<close> and \<open>%v\<close> print it.\<close>

fun fmt_digits :: "nat \<Rightarrow> string" where
  "fmt_digits n =
     (if n < 10 then [''0123456789'' ! n]
      else fmt_digits (n div 10) @ [''0123456789'' ! (n mod 10)])"

declare fmt_digits.simps [simp del]

definition fmtInteger :: "int \<Rightarrow> string" where
  "fmtInteger i = (if i < 0 then CHR ''-'' # fmt_digits (nat (- i)) else fmt_digits (nat i))"

definition typeString :: "any \<Rightarrow> string" where
  "typeString x = (case x of AnyString _ \<Rightarrow> ''string'' | AnyInt _ \<Rightarrow> ''int'')"

text \<open>
  \<open>printArg\<close> for the verbs \<open>s\<close>, \<open>d\<close> and \<open>v\<close>: a string under \<open>%d\<close> and an integer under \<open>%s\<close>
  print as a bad verb, \<open>%!verb(type=value)\<close>.
\<close>

definition printValue :: "any \<Rightarrow> string" where
  "printValue x = (case x of AnyString s \<Rightarrow> s | AnyInt i \<Rightarrow> fmtInteger i)"

definition badVerb :: "any \<Rightarrow> char \<Rightarrow> string" where
  "badVerb x verb = ''%!'' @ [verb] @ ''('' @ typeString x @ ''='' @ printValue x @ '')''"

definition printArg :: "any \<Rightarrow> char \<Rightarrow> string" where
  "printArg x verb =
     (case x of
        AnyString s \<Rightarrow> if verb = CHR ''s'' \<or> verb = CHR ''v'' then s else badVerb x verb
      | AnyInt i \<Rightarrow> if verb = CHR ''d'' \<or> verb = CHR ''v'' then fmtInteger i else badVerb x verb)"

definition missingArg :: "char \<Rightarrow> string" where
  "missingArg verb = ''%!'' @ [verb] @ ''(MISSING)''"

fun extraArgs :: "any list \<Rightarrow> string" where
  "extraArgs [] = []"
| "extraArgs [x] = typeString x @ ''='' @ printValue x"
| "extraArgs (x # y # ys) = typeString x @ ''='' @ printValue x @ '', '' @ extraArgs (y # ys)"

definition simple_verb :: "char \<Rightarrow> bool" where
  "simple_verb c \<longleftrightarrow> c = CHR ''s'' \<or> c = CHR ''d'' \<or> c = CHR ''v''"

text \<open>The value of a digit from \<open>1\<close> to \<open>9\<close>, as \<open>int(c - '0')\<close>.\<close>

definition digit_value :: "char \<Rightarrow> nat option" where
  "digit_value c =
     (let n = (of_char c :: nat) in if 49 \<le> n \<and> n \<le> 57 then Some (n - 48) else None)"

text \<open>
  The loop of \<open>doPrintf\<close> over the format, with its state \<open>argNum\<close> and \<open>reordered\<close>, on the
  formats made of plain bytes, \<open>%%\<close>, and the verbs \<open>%s\<close>, \<open>%d\<close>, \<open>%v\<close> with no flag, width or
  precision, each optionally with an explicit argument index \<open>[k]\<close> of one digit that names
  an existing argument. A verb with no argument left prints \<open>%!verb(MISSING)\<close>; at the end,
  unless an index was used, arguments left over print as \<open>%!(EXTRA type=value, ...)\<close>. On
  any other format the result is \<open>None\<close>.
\<close>

fun doPrintf :: "string \<Rightarrow> any list \<Rightarrow> nat \<Rightarrow> bool \<Rightarrow> string option" where
  "doPrintf [] a argNum reordered =
     Some (if \<not> reordered \<and> argNum < length a
           then ''%!(EXTRA '' @ extraArgs (drop argNum a) @ '')'' else [])"
| "doPrintf (c # fs) a argNum reordered =
     (if c \<noteq> CHR ''%'' then map_option ((#) c) (doPrintf fs a argNum reordered)
      else
        (case fs of
           [] \<Rightarrow> None
         | v # r \<Rightarrow>
             if v = CHR ''%'' then map_option ((#) v) (doPrintf r a argNum reordered)
             else if simple_verb v then
               (if argNum < length a
                then map_option ((@) (printArg (a ! argNum) v)) (doPrintf r a (Suc argNum) reordered)
                else map_option ((@) (missingArg v)) (doPrintf r a argNum reordered))
             else if v = CHR ''['' then
               (case r of
                  d # b # verb # r' \<Rightarrow>
                    (case digit_value d of
                       Some k \<Rightarrow>
                         if b = CHR '']'' \<and> simple_verb verb \<and> k \<le> length a
                         then map_option ((@) (printArg (a ! (k - 1)) verb)) (doPrintf r' a k True)
                         else None
                     | None \<Rightarrow> None)
                | _ \<Rightarrow> None)
             else None))"

definition fmt_Sprintf :: "runtime \<Rightarrow> string \<Rightarrow> any list \<Rightarrow> string" where
  "fmt_Sprintf rt format a =
     (case doPrintf format a 0 False of
        Some s \<Rightarrow> s
      | None \<Rightarrow> Sprintf_other rt format a)"

section \<open>Package \<open>errors\<close>\<close>

definition errors_New :: "addr \<Rightarrow> string \<Rightarrow> error" where
  "errors_New a s = errorString a s"

text \<open>
  \<open>errors.Unwrap\<close>: the result of the \<open>Unwrap() error\<close> method when the value has one, else
  \<open>nil\<close>. For a \<open>lazyerror\<close> the method is \<open>lazyerror.Unwrap\<close>, which returns the field \<open>err\<close>.
\<close>

definition lazyerror_Unwrap :: "error \<Rightarrow> uintptr \<Rightarrow> error" where
  "lazyerror_Unwrap err p = err"

fun errors_Unwrap :: "error \<Rightarrow> error" where
  "errors_Unwrap nil = nil"
| "errors_Unwrap (errorString a s) = nil"
| "errors_Unwrap (joinError a errs) = nil"
| "errors_Unwrap (wrapErrors a msg errs) = nil"
| "errors_Unwrap (otherError a msg u) = u"
| "errors_Unwrap (lazyerror err p) = lazyerror_Unwrap err p"

text \<open>The type assertion \<open>err.(interface{ Unwrap() []error })\<close>.\<close>

fun has_Unwrap_list :: "error \<Rightarrow> bool" where
  "has_Unwrap_list (joinError a errs) = True"
| "has_Unwrap_list (wrapErrors a msg errs) = True"
| "has_Unwrap_list _ = False"

text \<open>
  \<open>errors.Join\<close>: nil values are dropped; with none left the result is \<open>nil\<close>, otherwise a
  \<open>joinError\<close> allocated at \<open>a\<close>. Recent Go versions return a single remaining error itself
  when it already has \<open>Unwrap() []error\<close>; \<open>single_shortcut\<close> says whether the Go version at
  hand does so.
\<close>

definition errors_Join :: "bool \<Rightarrow> addr \<Rightarrow> error list \<Rightarrow> error" where
  "errors_Join single_shortcut a errs =
     (let es = filter (\<lambda>e. e \<noteq> nil) errs in
      if es = [] then nil
      else if single_shortcut \<and> length es = 1 \<and> has_Unwrap_list (hd es) then hd es
      else joinError a es)"

section \<open>Capturing the location\<close>

text \<open>
  \<open>runtime.Callers(skip, buf)\<close>: with \<open>stk\<close> the stack whose first frame is that of \<open>Callers\<close>
  itself, the frames after the first \<open>skip\<close> are written into \<open>buf\<close>, as many as fit; the
  result is the number written and the buffer.
\<close>

definition runtime_Callers :: "nat \<Rightarrow> uintptr list \<Rightarrow> stack \<Rightarrow> nat \<times> uintptr list" where
  "runtime_Callers skip buf stk =
     (let pcs = take (length buf) (drop skip stk)
      in (length pcs, pcs @ drop (length pcs) buf))"

text \<open>
  \<open>pc()\<close>, called with the stack \<open>stk\<close> of its caller (whose first frame is the caller's):
  it allocates a buffer of one zero, calls \<open>runtime.Callers(3, buf)\<close> and returns \<open>buf[0]\<close>.
\<close>

definition pc :: "callsites \<Rightarrow> stack \<Rightarrow> uintptr" where
  "pc cs stk =
     (let buf = replicate 1 0;
          (n, buf') = runtime_Callers 3 buf (in_Callers cs # pc_calls_Callers cs # stk)
      in buf' ! 0)"

section \<open>The constructors\<close>

text \<open>
  Each constructor is called with the stack \<open>stk\<close> of its caller; the first entry of \<open>stk\<close>
  is the return address of the call, inside the caller. \<open>New\<close> and \<open>Join\<close> also take the
  address of the error they allocate.
\<close>

definition New :: "callsites \<Rightarrow> addr \<Rightarrow> string \<Rightarrow> stack \<Rightarrow> error" where
  "New cs a s stk = lazyerror (errors_New a s) (pc cs (New_calls_pc cs # stk))"

definition Error :: "callsites \<Rightarrow> error \<Rightarrow> stack \<Rightarrow> panic + error" where
  "Error cs err stk =
     (if err = nil then Inl (PanicValue ''err is nil'')
      else Inr (lazyerror err (pc cs (Error_calls_pc cs # stk))))"

text \<open>\<open>fmt.Errorf\<close> is a parameter: it never returns \<open>nil\<close>, and \<open>Errorf\<close> does not look at it.\<close>

definition Errorf :: "callsites \<Rightarrow> (string \<Rightarrow> 'a \<Rightarrow> error) \<Rightarrow> string \<Rightarrow> 'a \<Rightarrow> stack \<Rightarrow> error" where
  "Errorf cs fmt_Errorf format a stk =
     lazyerror (fmt_Errorf format a) (pc cs (Errorf_calls_pc cs # stk))"

definition Join :: "callsites \<Rightarrow> bool \<Rightarrow> addr \<Rightarrow> error list \<Rightarrow> stack \<Rightarrow> error" where
  "Join cs single_shortcut a errs stk =
     (let err = errors_Join single_shortcut a errs in
      if err = nil then nil
      else lazyerror err (pc cs (Join_calls_pc cs # stk)))"

text \<open>\<open>Unwrap\<close> of \<open>errors.go\<close>.\<close>

definition Unwrap :: "error \<Rightarrow> error" where
  "Unwrap err = errors_Unwrap err"

section \<open>Rendering\<close>

text \<open>\<open>lazyerror.loc\<close>: the zero values for a zero program counter, else the frame's fields.\<close>

definition lazyerror_loc :: "runtime \<Rightarrow> error \<Rightarrow> uintptr \<Rightarrow> string \<times> int \<times> string" where
  "lazyerror_loc rt err p =
     (if p = 0 then ([], 0, [])
      else (let frame = CallersFrames_Next rt p in (File frame, Line frame, Function frame)))"

text \<open>
  \<open>(*joinError).Error\<close>: the message of \<open>errs[0]\<close>, then a newline and the message of each
  further one. The messages are computed in order, so the first panic is the result.
  \<open>errors.Join\<close> builds no \<open>joinError\<close> without errors; on one, \<open>errs[0]\<close> is out of range.
\<close>

fun join_messages :: "(panic + string) list \<Rightarrow> panic + string" where
  "join_messages [] = Inl IndexOutOfRange"
| "join_messages [r] = r"
| "join_messages (r # r' # rs) =
     (case r of
        Inl p \<Rightarrow> Inl p
      | Inr s \<Rightarrow>
          (case join_messages (r' # rs) of
             Inl p \<Rightarrow> Inl p
           | Inr t \<Rightarrow> Inr (s @ [CHR 0x0A] @ t)))"

text \<open>
  The method call \<open>err.Error()\<close> on a value of type \<open>error\<close>, under the package variables
  \<open>g\<close>. The last equation is \<open>lazyerror.Error\<close>.
\<close>

fun error_Error :: "globals \<Rightarrow> runtime \<Rightarrow> error \<Rightarrow> panic + string" where
  "error_Error g rt nil = Inl NilDereference"
| "error_Error g rt (errorString a s) = Inr s"
| "error_Error g rt (wrapErrors a msg errs) = Inr msg"
| "error_Error g rt (otherError a msg u) = Inr msg"
| "error_Error g rt (joinError a errs) = join_messages (map (error_Error g rt) errs)"
| "error_Error g rt (lazyerror err p) =
     (case lazyerror_loc rt err p of
        (file, line, function) \<Rightarrow>
          if file = [] \<and> function = [] then error_Error g rt err
          else
            (case error_Error g rt err of
               Inl p \<Rightarrow> Inl p
             | Inr msg \<Rightarrow>
                 Inr (fmt_Sprintf rt (Format g)
                        [AnyString (shorten file (FileSegments g)),
                         AnyInt line,
                         AnyString (shorten function (FunctionSegments g)),
                         AnyString msg])))"

text \<open>
  A call of \<open>Error()\<close> and the three assignments to the package variables, as steps on the
  state of the package variables. \<open>Error()\<close> reads them and writes nothing.
\<close>

definition call_Error :: "runtime \<Rightarrow> error \<Rightarrow> globals \<Rightarrow> (panic + string) \<times> globals" where
  "call_Error rt err g = (error_Error g rt err, g)"

definition set_FileSegments :: "int \<Rightarrow> globals \<Rightarrow> globals" where
  "set_FileSegments n g = g\<lparr>FileSegments := n\<rparr>"

definition set_FunctionSegments :: "int \<Rightarrow> globals \<Rightarrow> globals" where
  "set_FunctionSegments n g = g\<lparr>FunctionSegments := n\<rparr>"

definition set_Format :: "string \<Rightarrow> globals \<Rightarrow> globals" where
  "set_Format f g = g\<lparr>Format := f\<rparr>"

section \<open>Rendering as a step on the program state\<close>




section \<open>Notions of the specification\<close>

text \<open>
  The pieces of a string split after each separator: every piece but the last ends with the
  separator, and the pieces concatenate to the string.
\<close>

fun pieces :: "char \<Rightarrow> string \<Rightarrow> string list" where
  "pieces sep [] = [[]]"
| "pieces sep (x # xs) =
     (if x = sep then [x] # pieces sep xs
      else (case pieces sep xs of [] \<Rightarrow> [[x]] | p # ps \<Rightarrow> (x # p) # ps))"

text \<open>The part of a string after its last separator; the whole string when it has none.\<close>

definition after_last :: "char \<Rightarrow> string \<Rightarrow> string" where
  "after_last sep s = rev (takeWhile (\<lambda>x. x \<noteq> sep) (rev s))"

text \<open>The last \<open>n\<close> elements of a list; all of them when it has fewer.\<close>

definition last_n :: "nat \<Rightarrow> 'a list \<Rightarrow> 'a list" where
  "last_n n xs = rev (take n (rev xs))"

text \<open>
  A chain of wraps around \<open>base\<close>, given by the program counters of the wraps, outermost
  first.
\<close>

fun wraps :: "uintptr list \<Rightarrow> error \<Rightarrow> error" where
  "wraps [] base = base"
| "wraps (p # ps) base = lazyerror (wraps ps base) p"

text \<open>
  The statement \<open>err = Error(err)\<close> run once for each stack of the list, in order: a panic
  ends the run.
\<close>

fun wrap_each :: "callsites \<Rightarrow> stack list \<Rightarrow> error \<Rightarrow> panic + error" where
  "wrap_each cs [] err = Inr err"
| "wrap_each cs (stk # stks) err =
     (case Error cs err stk of Inl p \<Rightarrow> Inl p | Inr w \<Rightarrow> wrap_each cs stks w)"

text \<open>
  The default pattern \<open><shortened-file>:<line> (<shortened-function>): \<close> for a frame,
  before the cause's message.
\<close>

definition location_prefix :: "Frame \<Rightarrow> string" where
  "location_prefix frame =
     shorten (File frame) 1 @ '':'' @ fmtInteger (Line frame) @ '' ('' @
     shorten (Function frame) 1 @ ''): ''"

text \<open>
  A location was captured: the program counter is not zero and resolves to a frame with a
  file or a function name.
\<close>

definition captured :: "runtime \<Rightarrow> uintptr \<Rightarrow> bool" where
  "captured rt p \<longleftrightarrow>
     p \<noteq> 0 \<and>
     (File (CallersFrames_Next rt p) \<noteq> [] \<or> Function (CallersFrames_Next rt p) \<noteq> [])"


section \<open>Values for the examples\<close>

text \<open>
  Library program counters, and a runtime in which the program counters \<open>95\<close>, \<open>96\<close> and
  \<open>97\<close> resolve to these lines of \<open>TestErrors\<close> in \<open>lazyerrors_test.go\<close>.
\<close>

definition test_callsites :: callsites where
  "test_callsites =
     \<lparr>in_Callers = 1, pc_calls_Callers = 2, New_calls_pc = 3, Error_calls_pc = 4,
      Errorf_calls_pc = 5, Join_calls_pc = 6\<rparr>"

definition test_runtime :: runtime where
  "test_runtime =
     \<lparr>CallersFrames_Next =
        (\<lambda>p. if p = 0 then \<lparr>File = [], Line = 0, Function = []\<rparr>
             else \<lparr>File = ''/absolute/path/lazyerrors_test.go'',
                   Line = (if p = 95 then 95 else if p = 96 then 96 else 97),
                   Function = ''github.com/AlekSi/lazyerrors.TestErrors''\<rparr>),
      Sprintf_other = (\<lambda>format a. [])\<rparr>"


section \<open>Properties of the string functions\<close>

lemma LastIndexByte_loop_notin:
  "n \<le> length s \<Longrightarrow> c \<notin> set (take n s) \<Longrightarrow> LastIndexByte_loop s c n = - 1"
  by (induction n) (auto simp: take_Suc_conv_app_nth)

lemma LastIndexByte_loop_in:
  "n \<le> length s \<Longrightarrow> c \<in> set (take n s) \<Longrightarrow>
     (\<exists>i < n. LastIndexByte_loop s c n = int i \<and> s ! i = c \<and> c \<notin> set (drop (Suc i) (take n s)))"
proof (induction n)
  case 0
  then show ?case by simp
next
  case (Suc n)
  show ?case
  proof (cases "s ! n = c")
    case True
    with Suc.prems show ?thesis by (auto simp: take_Suc_conv_app_nth)
  next
    case False
    with Suc.prems have "c \<in> set (take n s)" by (auto simp: take_Suc_conv_app_nth)
    with Suc obtain i where i: "i < n" "LastIndexByte_loop s c n = int i" "s ! i = c"
      "c \<notin> set (drop (Suc i) (take n s))" by auto
    with False Suc.prems show ?thesis
      by (auto simp: take_Suc_conv_app_nth intro!: exI [of _ i])
  qed
qed

lemma LastIndexByte_notin: "c \<notin> set s \<Longrightarrow> strings_LastIndexByte s c = - 1"
  by (simp add: strings_LastIndexByte_def LastIndexByte_loop_notin)

lemma LastIndexByte_in:
  assumes "c \<in> set s"
  shows "strings_LastIndexByte s c \<noteq> - 1 \<and>
         drop (nat (strings_LastIndexByte s c + 1)) s = after_last c s"
proof -
  from assms LastIndexByte_loop_in [of "length s" s c]
  obtain i where i: "i < length s" "strings_LastIndexByte s c = int i" "s ! i = c"
    "c \<notin> set (drop (Suc i) s)" by (auto simp: strings_LastIndexByte_def)
  have s: "s = take i s @ c # drop (Suc i) s"
    using i(1,3) id_take_nth_drop [of i s] by simp
  have "rev s = rev (drop (Suc i) s) @ c # rev (take i s)"
    by (subst s) simp
  then have "takeWhile (\<lambda>x. x \<noteq> c) (rev s) = rev (drop (Suc i) s)"
    using i(4) by (auto simp: takeWhile_tail)
  then have "after_last c s = drop (Suc i) s" by (simp add: after_last_def)
  moreover have "nat (int i + 1) = Suc i" by simp
  ultimately show ?thesis using i(2) by simp
qed

lemma after_last_notin:
  assumes "c \<notin> set s"
  shows "after_last c s = s"
proof -
  from assms have "\<forall>x \<in> set (rev s). x \<noteq> c" by auto
  then have "takeWhile (\<lambda>x. x \<noteq> c) (rev s) = rev s"
    by (simp only: takeWhile_eq_all_conv)
  then show ?thesis by (simp only: after_last_def rev_rev_ident)
qed

lemma SplitAfter_Nil: "strings_SplitAfter [] sep = [[]]"
  by (simp add: strings_SplitAfter.simps)

lemma SplitAfter_Cons:
  "strings_SplitAfter (x # xs) sep =
     (if x = sep then [x] # strings_SplitAfter xs sep
      else (case strings_SplitAfter xs sep of [] \<Rightarrow> [[x]] | p # ps \<Rightarrow> (x # p) # ps))"
proof (cases "x = sep")
  case True
  then show ?thesis by (subst strings_SplitAfter.simps) simp
next
  case False
  show ?thesis
  proof (cases "strings_IndexByte xs sep < 0")
    case True
    with False show ?thesis
      by (simp add: strings_SplitAfter.simps [of "x # xs"] strings_SplitAfter.simps [of xs] Let_def)
  next
    case neg: False
    then have "0 \<le> strings_IndexByte xs sep" by simp
    then have eq: "nat (strings_IndexByte xs sep + 1) = Suc (nat (strings_IndexByte xs sep))"
      by simp
    from False neg show ?thesis
      by (simp add: strings_SplitAfter.simps [of "x # xs"] strings_SplitAfter.simps [of xs] Let_def eq)
  qed
qed

lemma SplitAfter_pieces: "strings_SplitAfter s sep = pieces sep s"
  by (induction s) (simp_all add: SplitAfter_Nil SplitAfter_Cons)

lemma pieces_nonempty: "pieces sep s \<noteq> []"
  by (induction s) (auto split: list.splits)

lemma concat_pieces: "concat (pieces sep s) = s"
  by (induction s) (auto split: list.splits)

lemma pieces_notin: "sep \<notin> set s \<Longrightarrow> pieces sep s = [s]"
  by (induction s) auto

lemma pieces_leading:
  "p \<in> set (butlast (pieces sep s)) \<Longrightarrow> p \<noteq> [] \<and> last p = sep \<and> sep \<notin> set (butlast p)"
  by (induction s arbitrary: p) (auto split: list.splits if_splits)

lemma pieces_last: "sep \<notin> set (last (pieces sep s))"
  using pieces_nonempty [of sep] by (induction s) (auto split: list.splits if_splits)

lemma strings_Join_empty_sep: "strings_Join xs [] = concat xs"
  by (induction xs "[] :: string" rule: strings_Join.induct) auto

lemma suffix_concat_drop: "suffix (concat (drop n xs)) (concat xs)"
proof -
  have "concat xs = concat (take n xs) @ concat (drop n xs)"
    by (simp flip: concat_append)
  then show ?thesis unfolding suffix_def by blast
qed

section \<open>Properties of \<open>shorten\<close>\<close>

lemma shorten_negative: "segments < 0 \<Longrightarrow> shorten path segments = path"
  by (simp add: shorten_def)

lemma shorten_zero: "shorten path 0 = []"
  by (simp add: shorten_def)

lemma shorten_one: "shorten path 1 = after_last (CHR ''/'') path"
proof (cases "CHR ''/'' \<in> set path")
  case True
  from LastIndexByte_in [OF True] show ?thesis by (simp add: shorten_def Let_def)
next
  case False
  then show ?thesis by (simp add: shorten_def LastIndexByte_notin after_last_notin)
qed

lemma shorten_many:
  assumes "1 < segments"
  shows "shorten path segments = concat (last_n (nat segments) (pieces (CHR ''/'') path))"
proof -
  let ?p = "pieces (CHR ''/'') path"
  show ?thesis
  proof (cases "int (length ?p) - segments > 0")
    case True
    then have "nat (int (length ?p) - segments) = length ?p - nat segments" using assms by simp
    then have "last_n (nat segments) ?p = drop (nat (int (length ?p) - segments)) ?p"
      by (simp add: last_n_def rev_take)
    with True assms show ?thesis
      by (simp add: shorten_def Let_def SplitAfter_pieces strings_Join_empty_sep)
  next
    case False
    then have "length ?p \<le> nat segments" by simp
    then have "last_n (nat segments) ?p = ?p" by (simp add: last_n_def)
    with False assms show ?thesis
      by (simp add: shorten_def Let_def SplitAfter_pieces concat_pieces)
  qed
qed

lemma shorten_saturates:
  assumes "1 < segments" and "length (pieces (CHR ''/'') path) \<le> nat segments"
  shows "shorten path segments = path"
  using assms by (simp add: shorten_many last_n_def concat_pieces)

lemma shorten_no_separator:
  assumes "1 \<le> segments" and "CHR ''/'' \<notin> set path"
  shows "shorten path segments = path"
proof (cases "segments = 1")
  case True
  with assms(2) show ?thesis by (simp add: shorten_one after_last_notin)
next
  case False
  with assms(1) have "1 < segments" by simp
  with assms(2) show ?thesis by (simp add: shorten_saturates pieces_notin)
qed

lemma shorten_suffix: "suffix (shorten path segments) path"
proof -
  consider "segments < 0" | "segments = 0" | "segments = 1" | "1 < segments" by linarith
  then show ?thesis
  proof cases
    case 1
    then show ?thesis by (simp add: shorten_negative)
  next
    case 2
    then show ?thesis by (simp add: shorten_zero)
  next
    case 3
    have "suffix (after_last (CHR ''/'') path) path"
      using suffix_drop [of _ path] LastIndexByte_in [of "CHR ''/''" path]
        after_last_notin [of "CHR ''/''" path]
      by (cases "CHR ''/'' \<in> set path") (metis, simp)
    with 3 show ?thesis by (simp add: shorten_one)
  next
    case 4
    have "suffix (concat (last_n (nat segments) (pieces (CHR ''/'') path)))
            (concat (pieces (CHR ''/'') path))"
      unfolding last_n_def rev_take rev_rev_ident by (rule suffix_concat_drop)
    with 4 show ?thesis by (simp add: shorten_many concat_pieces)
  qed
qed

section \<open>Properties of the constructors\<close>

lemma pc_skips: "pc cs (ctor # app # rest) = app"
  by (simp add: pc_def runtime_Callers_def)

lemma pc_no_caller: "pc cs [ctor] = 0"
  by (simp add: pc_def runtime_Callers_def)

lemma Error_non_nil:
  "err \<noteq> nil \<Longrightarrow> Error cs err stk = Inr (lazyerror err (pc cs (Error_calls_pc cs # stk)))"
  by (simp add: Error_def)

lemma Unwrap_lazyerror: "Unwrap (lazyerror err p) = err"
  by (simp add: Unwrap_def lazyerror_Unwrap_def)

lemma wrap_each_unwrap:
  "err \<noteq> nil \<Longrightarrow>
     \<exists>w. wrap_each cs stks err = Inr w \<and> (Unwrap ^^ length stks) w = err"
proof (induction stks arbitrary: err)
  case Nil
  then show ?case by simp
next
  case (Cons stk stks)
  let ?w = "lazyerror err (pc cs (Error_calls_pc cs # stk))"
  from Cons.IH [of ?w] obtain w where
    w: "wrap_each cs stks ?w = Inr w" "(Unwrap ^^ length stks) w = ?w" by auto
  from Cons.prems w show ?case
    by (simp add: Error_non_nil Unwrap_lazyerror)
qed

lemma errors_Join_filter:
  "errors_Join sc a (filter (\<lambda>e. e \<noteq> nil) errs) = errors_Join sc a errs"
  by (simp add: errors_Join_def)

lemma errors_Join_all_nil: "\<forall>e \<in> set errs. e = nil \<Longrightarrow> errors_Join sc a errs = nil"
  by (simp add: errors_Join_def filter_empty_conv)

lemma errors_Join_some:
  assumes "\<exists>e \<in> set errs. e \<noteq> nil"
  shows "errors_Join sc a errs \<noteq> nil \<and>
         (errors_Join sc a errs = joinError a (filter (\<lambda>e. e \<noteq> nil) errs) \<or>
          sc \<and> filter (\<lambda>e. e \<noteq> nil) errs = [errors_Join sc a errs])"
proof -
  let ?es = "filter (\<lambda>e. e \<noteq> nil) errs"
  from assms have ne: "?es \<noteq> []" by (simp add: filter_empty_conv)
  show ?thesis
  proof (cases "sc \<and> length ?es = 1 \<and> has_Unwrap_list (hd ?es)")
    case True
    then obtain e where e: "?es = [e]" by (cases ?es) auto
    then have "e \<in> set ?es" by simp
    then have "e \<noteq> nil" by simp
    with True e ne show ?thesis by (simp add: errors_Join_def)
  next
    case False
    with ne show ?thesis by (auto simp: errors_Join_def Let_def)
  qed
qed

section \<open>Properties of rendering\<close>

lemma init_globals_fields:
  "FileSegments init_globals = 1"
  "FunctionSegments init_globals = 1"
  "Format init_globals = ''%s:%d (%s): %s''"
  by (simp_all add: init_globals_def)

lemma Sprintf_default:
  "fmt_Sprintf rt ''%s:%d (%s): %s''
     [AnyString file, AnyInt line, AnyString function, AnyString msg] =
   file @ '':'' @ fmtInteger line @ '' ('' @ function @ ''): '' @ msg"
  by (simp add: fmt_Sprintf_def simple_verb_def printArg_def)

lemma Sprintf_function_message:
  "fmt_Sprintf rt ''%[3]s: %[4]s''
     [AnyString file, AnyInt line, AnyString function, AnyString msg] =
   function @ '': '' @ msg"
  by (simp add: fmt_Sprintf_def simple_verb_def printArg_def digit_value_def)

lemma lazyerror_Error_captured:
  assumes "captured rt p"
  shows "error_Error g rt (lazyerror err p) =
     (case error_Error g rt err of
        Inl x \<Rightarrow> Inl x
      | Inr msg \<Rightarrow>
          Inr (fmt_Sprintf rt (Format g)
                 [AnyString (shorten (File (CallersFrames_Next rt p)) (FileSegments g)),
                  AnyInt (Line (CallersFrames_Next rt p)),
                  AnyString (shorten (Function (CallersFrames_Next rt p)) (FunctionSegments g)),
                  AnyString msg]))"
  using assms by (auto simp: captured_def lazyerror_loc_def Let_def)

lemma lazyerror_Error_default:
  assumes "captured rt p" and "error_Error init_globals rt err = Inr msg"
  shows "error_Error init_globals rt (lazyerror err p) =
     Inr (location_prefix (CallersFrames_Next rt p) @ msg)"
proof -
  let ?frame = "CallersFrames_Next rt p"
  have "error_Error init_globals rt (lazyerror err p) =
      Inr (fmt_Sprintf rt (Format init_globals)
             [AnyString (shorten (File ?frame) (FileSegments init_globals)),
              AnyInt (Line ?frame),
              AnyString (shorten (Function ?frame) (FunctionSegments init_globals)),
              AnyString msg])"
    by (simp only: lazyerror_Error_captured [OF assms(1)] assms(2) sum.case)
  then show ?thesis
    by (simp add: init_globals_fields Sprintf_default location_prefix_def)
qed

lemma wraps_default:
  assumes "\<forall>p \<in> set ps. captured rt p"
    and "error_Error init_globals rt base = Inr msg"
  shows "error_Error init_globals rt (wraps ps base) =
     Inr (concat (map (\<lambda>p. location_prefix (CallersFrames_Next rt p)) ps) @ msg)"
  using assms
proof (induction ps)
  case Nil
  then show ?case by simp
next
  case (Cons p ps)
  then have c: "captured rt p" by simp
  from Cons have ih: "error_Error init_globals rt (wraps ps base) =
     Inr (concat (map (\<lambda>p. location_prefix (CallersFrames_Next rt p)) ps) @ msg)" by simp
  have "error_Error init_globals rt (lazyerror (wraps ps base) p) =
     Inr (location_prefix (CallersFrames_Next rt p) @
          concat (map (\<lambda>p. location_prefix (CallersFrames_Next rt p)) ps) @ msg)"
    by (rule lazyerror_Error_default [OF c ih])
  then show ?case by (simp only: wraps.simps list.map concat.simps append_assoc)
qed









text \<open>The examples: the frames of \<open>test_runtime\<close> and their shortened parts.\<close>

lemma test_runtime_captured: "captured test_runtime 95" "captured test_runtime 96"
  "captured test_runtime 97"
  by (simp_all add: captured_def test_runtime_def)

lemma test_runtime_frames:
  "CallersFrames_Next test_runtime 95 =
     \<lparr>File = ''/absolute/path/lazyerrors_test.go'', Line = 95,
      Function = ''github.com/AlekSi/lazyerrors.TestErrors''\<rparr>"
  "CallersFrames_Next test_runtime 96 =
     \<lparr>File = ''/absolute/path/lazyerrors_test.go'', Line = 96,
      Function = ''github.com/AlekSi/lazyerrors.TestErrors''\<rparr>"
  "CallersFrames_Next test_runtime 97 =
     \<lparr>File = ''/absolute/path/lazyerrors_test.go'', Line = 97,
      Function = ''github.com/AlekSi/lazyerrors.TestErrors''\<rparr>"
  by (simp_all add: test_runtime_def)

lemma test_lines: "fmtInteger 95 = ''95''" "fmtInteger 96 = ''96''" "fmtInteger 97 = ''97''"
  by code_simp+

lemma test_file_pieces:
  "pieces (CHR ''/'') ''/absolute/path/lazyerrors_test.go'' =
     [''/'', ''absolute/'', ''path/'', ''lazyerrors_test.go'']"
  by simp

lemma test_shortened:
  "shorten ''/absolute/path/lazyerrors_test.go'' 1 = ''lazyerrors_test.go''"
  "shorten ''github.com/AlekSi/lazyerrors.TestErrors'' 1 = ''lazyerrors.TestErrors''"
  by (simp_all add: shorten_one after_last_def)

lemma test_prefixes:
  "location_prefix (CallersFrames_Next test_runtime 97) =
     ''lazyerrors_test.go:97 (lazyerrors.TestErrors): ''"
  "location_prefix (CallersFrames_Next test_runtime 96) =
     ''lazyerrors_test.go:96 (lazyerrors.TestErrors): ''"
  "location_prefix (CallersFrames_Next test_runtime 95) =
     ''lazyerrors_test.go:95 (lazyerrors.TestErrors): ''"
  by (simp_all add: location_prefix_def test_runtime_frames test_lines test_shortened)

lemma test_Error:
  "err \<noteq> nil \<Longrightarrow> Error test_callsites err (app # rest) = Inr (lazyerror err app)"
  by (simp add: Error_def pc_skips)

section \<open>The claims\<close>

text \<open>
  C1. For every cause that is not \<open>nil\<close>, \<open>Error\<close> returns a wrap whose \<open>Unwrap\<close> method, and
  \<open>Unwrap\<close> of the package applied to it, return that cause. For a base error that does not
  itself unwrap and a chain built by wrapping it once for each of \<open>N\<close> stacks, \<open>N\<close>
  applications of \<open>Unwrap\<close> yield the base error and \<open>N + 1\<close> yield \<open>nil\<close>.
\<close>

theorem unwrap_after_wrap:
  "(cause \<noteq> nil \<longrightarrow>
      (\<exists>p. Error cs cause stk = Inr (lazyerror cause p) \<and>
           lazyerror_Unwrap cause p = cause \<and> Unwrap (lazyerror cause p) = cause)) \<and>
   (base \<noteq> nil \<and> Unwrap base = nil \<longrightarrow>
      (\<exists>w. wrap_each cs stks base = Inr w \<and>
           (Unwrap ^^ length stks) w = base \<and>
           (Unwrap ^^ Suc (length stks)) w = nil))"
proof (intro conjI impI)
  assume "cause \<noteq> nil"
  then show "\<exists>p. Error cs cause stk = Inr (lazyerror cause p) \<and>
           lazyerror_Unwrap cause p = cause \<and> Unwrap (lazyerror cause p) = cause"
    by (simp add: Error_non_nil Unwrap_lazyerror lazyerror_Unwrap_def)
next
  assume b: "base \<noteq> nil \<and> Unwrap base = nil"
  with wrap_each_unwrap [of base cs stks] obtain w where
    "wrap_each cs stks base = Inr w" "(Unwrap ^^ length stks) w = base" by auto
  with b show "\<exists>w. wrap_each cs stks base = Inr w \<and>
           (Unwrap ^^ length stks) w = base \<and> (Unwrap ^^ Suc (length stks)) w = nil"
    by simp
qed

theorem unwrap_after_wrap_witness:
  "Error test_callsites (errorString 0 ''err'') [95, 7] =
     Inr (lazyerror (errorString 0 ''err'') 95) \<and>
   Unwrap (lazyerror (errorString 0 ''err'') 95) = errorString 0 ''err'' \<and>
   wrap_each test_callsites [[95, 7], [96, 7], [97, 7]] (errorString 0 ''err'') =
     Inr (lazyerror (lazyerror (lazyerror (errorString 0 ''err'') 95) 96) 97) \<and>
   (Unwrap ^^ 3) (lazyerror (lazyerror (lazyerror (errorString 0 ''err'') 95) 96) 97) =
     errorString 0 ''err'' \<and>
   (Unwrap ^^ 4) (lazyerror (lazyerror (lazyerror (errorString 0 ''err'') 95) 96) 97) = nil"
proof -
  let ?base = "errorString 0 ''err''"
  let ?stks = "[[95, 7], [96, 7], [97, 7]] :: stack list"
  have w: "wrap_each test_callsites ?stks ?base =
      Inr (lazyerror (lazyerror (lazyerror ?base 95) 96) 97)"
    by (simp add: test_Error)
  have n: "length ?stks = 3" "Suc (length ?stks) = 4" by simp_all
  have b: "?base \<noteq> nil \<and> Unwrap ?base = nil" by (simp add: Unwrap_def)
  from unwrap_after_wrap [of ?base test_callsites "[95, 7]" ?base ?stks] b
  have "(\<exists>p. Error test_callsites ?base [95, 7] = Inr (lazyerror ?base p) \<and>
           lazyerror_Unwrap ?base p = ?base \<and> Unwrap (lazyerror ?base p) = ?base) \<and>
        (\<exists>w. wrap_each test_callsites ?stks ?base = Inr w \<and>
           (Unwrap ^^ length ?stks) w = ?base \<and> (Unwrap ^^ Suc (length ?stks)) w = nil)"
    by blast
  then show ?thesis unfolding w n by (simp add: test_Error)
qed

text \<open>
  C2. Under the default values of the package variables (\<open>FileSegments = 1\<close>,
  \<open>FunctionSegments = 1\<close>, \<open>Format = "%s:%d (%s): %s"\<close>), a wrap with a captured location
  renders as the shortened file, \<open>:\<close>, the line, the shortened function in parentheses,
  \<open>: \<close> and the message of its cause; so a chain of \<open>N\<close> such wraps around a base error
  renders as the \<open>N\<close> patterns of its wraps, outermost first, followed by the message of the
  base error.
\<close>

theorem default_rendering:
  assumes "\<forall>p \<in> set ps. captured rt p"
    and "error_Error init_globals rt base = Inr msg"
  shows
    "FileSegments init_globals = 1 \<and> FunctionSegments init_globals = 1 \<and>
     Format init_globals = ''%s:%d (%s): %s'' \<and>
     (captured rt p \<longrightarrow>
        error_Error init_globals rt (lazyerror base p) =
          Inr (shorten (File (CallersFrames_Next rt p)) 1 @ '':'' @
               fmtInteger (Line (CallersFrames_Next rt p)) @ '' ('' @
               shorten (Function (CallersFrames_Next rt p)) 1 @ ''): '' @ msg)) \<and>
     error_Error init_globals rt (wraps ps base) =
       Inr (concat (map (\<lambda>p. location_prefix (CallersFrames_Next rt p)) ps) @ msg)"
proof (intro conjI impI)
  assume "captured rt p"
  from lazyerror_Error_default [OF this assms(2)]
  show "error_Error init_globals rt (lazyerror base p) =
          Inr (shorten (File (CallersFrames_Next rt p)) 1 @ '':'' @
               fmtInteger (Line (CallersFrames_Next rt p)) @ '' ('' @
               shorten (Function (CallersFrames_Next rt p)) 1 @ ''): '' @ msg)"
    by (simp only: location_prefix_def append_assoc)
next
  show "error_Error init_globals rt (wraps ps base) =
       Inr (concat (map (\<lambda>p. location_prefix (CallersFrames_Next rt p)) ps) @ msg)"
    by (rule wraps_default [OF assms])
qed (simp_all only: init_globals_fields)

theorem default_rendering_witness:
  "error_Error init_globals test_runtime (lazyerror (errorString 0 ''err'') 95) =
     Inr ''lazyerrors_test.go:95 (lazyerrors.TestErrors): err'' \<and>
   error_Error init_globals test_runtime (wraps [97, 96, 95] (errorString 0 ''err'')) =
     Inr (''lazyerrors_test.go:97 (lazyerrors.TestErrors): '' @
          ''lazyerrors_test.go:96 (lazyerrors.TestErrors): '' @
          ''lazyerrors_test.go:95 (lazyerrors.TestErrors): '' @ ''err'')"
proof -
  have c: "\<forall>p \<in> set [97, 96, 95]. captured test_runtime p"
    by (simp add: test_runtime_captured)
  have b: "error_Error init_globals test_runtime (errorString 0 ''err'') = Inr ''err''"
    by simp
  note t = default_rendering [OF c b, of 95]
  from t test_runtime_captured(1)
  have "error_Error init_globals test_runtime (lazyerror (errorString 0 ''err'') 95) =
      Inr (shorten (File (CallersFrames_Next test_runtime 95)) 1 @ '':'' @
           fmtInteger (Line (CallersFrames_Next test_runtime 95)) @ '' ('' @
           shorten (Function (CallersFrames_Next test_runtime 95)) 1 @ ''): '' @ ''err'')"
    by blast
  then have one: "error_Error init_globals test_runtime (lazyerror (errorString 0 ''err'') 95) =
      Inr ''lazyerrors_test.go:95 (lazyerrors.TestErrors): err''"
    by (simp add: test_runtime_frames test_lines test_shortened del: error_Error.simps(6))
  from t
  have "error_Error init_globals test_runtime (wraps [97, 96, 95] (errorString 0 ''err'')) =
       Inr (concat (map (\<lambda>p. location_prefix (CallersFrames_Next test_runtime p))
         [97, 96, 95]) @ ''err'')"
    by blast
  then have chain:
    "error_Error init_globals test_runtime (wraps [97, 96, 95] (errorString 0 ''err'')) =
     Inr (''lazyerrors_test.go:97 (lazyerrors.TestErrors): '' @
          ''lazyerrors_test.go:96 (lazyerrors.TestErrors): '' @
          ''lazyerrors_test.go:95 (lazyerrors.TestErrors): '' @ ''err'')"
    by (simp only: list.map concat.simps test_prefixes append_Nil2 append_assoc)
  from one chain show ?thesis by (rule conjI)
qed

text \<open>
  C3. \<open>shorten\<close> follows the case analysis of the specification, for every string and every
  integer: a negative count returns the string unchanged; zero returns the empty string;
  one returns the part after the last \<open>/\<close> (the whole string when it has none); a count
  above one returns the concatenation of the last \<open>segments\<close> pieces of the string split
  after each \<open>/\<close>, which is the whole string when there are no more pieces than that; and a
  string with no \<open>/\<close> is returned unchanged for every count of at least one.
\<close>

theorem shorten_case_analysis:
  "(segments < 0 \<longrightarrow> shorten path segments = path) \<and>
   (segments = 0 \<longrightarrow> shorten path segments = []) \<and>
   (segments = 1 \<longrightarrow>
      shorten path segments = after_last (CHR ''/'') path \<and>
      (CHR ''/'' \<notin> set path \<longrightarrow> shorten path segments = path)) \<and>
   (1 < segments \<longrightarrow>
      shorten path segments = concat (last_n (nat segments) (pieces (CHR ''/'') path)) \<and>
      (length (pieces (CHR ''/'') path) \<le> nat segments \<longrightarrow> shorten path segments = path)) \<and>
   (1 \<le> segments \<and> CHR ''/'' \<notin> set path \<longrightarrow> shorten path segments = path)"
proof (intro conjI impI)
  show "shorten path segments = path" if "segments < 0"
    using that by (rule shorten_negative)
  show "shorten path segments = []" if "segments = 0"
    using that by (simp add: shorten_zero)
  show "shorten path segments = after_last (CHR ''/'') path" if "segments = 1"
    using that by (simp add: shorten_one)
  show "shorten path segments = path" if "segments = 1" "CHR ''/'' \<notin> set path"
    using that by (simp add: shorten_no_separator)
  show "shorten path segments = concat (last_n (nat segments) (pieces (CHR ''/'') path))"
    if "1 < segments"
    using that by (rule shorten_many)
  show "shorten path segments = path"
    if "1 < segments" "length (pieces (CHR ''/'') path) \<le> nat segments"
    using that by (rule shorten_saturates)
  show "shorten path segments = path" if "1 \<le> segments \<and> CHR ''/'' \<notin> set path"
    using that by (simp add: shorten_no_separator)
qed

theorem shorten_case_analysis_witness:
  "shorten ''/absolute/path/lazyerrors.go'' (- 1) = ''/absolute/path/lazyerrors.go'' \<and>
   shorten ''/absolute/path/lazyerrors.go'' 0 = [] \<and>
   shorten ''/absolute/path/lazyerrors.go'' 1 = ''lazyerrors.go'' \<and>
   shorten ''/absolute/path/lazyerrors.go'' 3 = ''absolute/path/lazyerrors.go'' \<and>
   shorten ''/absolute/path/lazyerrors.go'' 5 = ''/absolute/path/lazyerrors.go'' \<and>
   shorten ''lazyerrors.go'' 1 = ''lazyerrors.go'' \<and>
   shorten ''lazyerrors.go'' 2 = ''lazyerrors.go''"
proof -
  have al: "after_last (CHR ''/'') ''/absolute/path/lazyerrors.go'' = ''lazyerrors.go''"
    by (simp add: after_last_def)
  have ps: "pieces (CHR ''/'') ''/absolute/path/lazyerrors.go'' =
      [''/'', ''absolute/'', ''path/'', ''lazyerrors.go'']"
    by simp
  show ?thesis
    using shorten_case_analysis [of "- 1" "''/absolute/path/lazyerrors.go''"]
      shorten_case_analysis [of 0 "''/absolute/path/lazyerrors.go''"]
      shorten_case_analysis [of 1 "''/absolute/path/lazyerrors.go''"]
      shorten_case_analysis [of 3 "''/absolute/path/lazyerrors.go''"]
      shorten_case_analysis [of 5 "''/absolute/path/lazyerrors.go''"]
      shorten_case_analysis [of 1 "''lazyerrors.go''"]
      shorten_case_analysis [of 2 "''lazyerrors.go''"]
    by (simp add: al ps last_n_def after_last_def)
qed

text \<open>
  C4. A wrap whose program counter is zero (what \<open>pc\<close> returns when \<open>runtime.Callers\<close> finds
  no frame to capture) has the empty location, and its rendering is exactly the rendering
  of its cause: nothing is added before or after it.
\<close>

theorem empty_location_renders_cause:
  "pc cs [ctor] = 0 \<and>
   lazyerror_loc rt cause 0 = ([], 0, []) \<and>
   error_Error g rt (lazyerror cause 0) = error_Error g rt cause \<and>
   call_Error rt (lazyerror cause 0) g = call_Error rt cause g"
  by (simp add: pc_no_caller lazyerror_loc_def call_Error_def)

theorem empty_location_renders_cause_witness:
  "error_Error init_globals test_runtime (lazyerror (errorString 0 ''err'') 0) = Inr ''err''"
  using empty_location_renders_cause [where rt = test_runtime
      and cause = "errorString 0 ''err''" and g = init_globals]
  by simp

text \<open>
  C5. \<open>Error\<close> applied to \<open>nil\<close> panics with \<open>"err is nil"\<close> and returns no value; applied to
  any other error it returns, without a panic, a \<open>lazyerror\<close> that holds the error.
\<close>

theorem Error_nil_panics:
  "Error cs nil stk = Inl (PanicValue ''err is nil'') \<and>
   (\<forall>w. Error cs nil stk \<noteq> Inr w) \<and>
   (err \<noteq> nil \<longrightarrow> (\<exists>p. Error cs err stk = Inr (lazyerror err p)))"
  by (simp add: Error_def)

theorem Error_nil_panics_witness:
  "Error test_callsites nil [95, 7] = Inl (PanicValue ''err is nil'') \<and>
   Error test_callsites (errorString 0 ''err'') [95, 7] =
     Inr (lazyerror (errorString 0 ''err'') 95)"
  using Error_nil_panics [of test_callsites "[95, 7]" "errorString 0 ''err''"]
  by (simp add: test_Error)

text \<open>
  C6. \<open>Join\<close> drops the nil values among its arguments and returns \<open>nil\<close> when none is left.
  With an error left it returns a \<open>lazyerror\<close> whose \<open>Unwrap\<close> is one error, the aggregate
  of the errors left (or, where \<open>errors.Join\<close> hands a single joined error back, that
  error). With exactly one error \<open>e\<close> left, the unwrapped error is the aggregate of \<open>e\<close> alone,
  or \<open>e\<close> itself, and has the message of \<open>e\<close>.
\<close>

theorem Join_discards_nil:
  "Join cs sc a errs stk = Join cs sc a (filter (\<lambda>e. e \<noteq> nil) errs) stk \<and>
   ((\<forall>e \<in> set errs. e = nil) \<longrightarrow> Join cs sc a errs stk = nil) \<and>
   ((\<exists>e \<in> set errs. e \<noteq> nil) \<longrightarrow>
      (\<exists>agg p. agg \<noteq> nil \<and> Join cs sc a errs stk = lazyerror agg p \<and>
         Unwrap (Join cs sc a errs stk) = agg \<and>
         (agg = joinError a (filter (\<lambda>e. e \<noteq> nil) errs) \<or>
          filter (\<lambda>e. e \<noteq> nil) errs = [agg]))) \<and>
   (filter (\<lambda>e. e \<noteq> nil) errs = [e] \<longrightarrow>
      (\<exists>agg. Unwrap (Join cs sc a errs stk) = agg \<and>
         (agg = joinError a [e] \<or> agg = e) \<and>
         error_Error g rt agg = error_Error g rt e))"
proof (intro conjI impI)
  show "Join cs sc a errs stk = Join cs sc a (filter (\<lambda>e. e \<noteq> nil) errs) stk"
    by (simp add: Join_def errors_Join_filter)
next
  assume "\<forall>e \<in> set errs. e = nil"
  then show "Join cs sc a errs stk = nil"
    by (simp add: Join_def errors_Join_all_nil)
next
  assume "\<exists>e \<in> set errs. e \<noteq> nil"
  from errors_Join_some [OF this, of sc a]
  show "\<exists>agg p. agg \<noteq> nil \<and> Join cs sc a errs stk = lazyerror agg p \<and>
         Unwrap (Join cs sc a errs stk) = agg \<and>
         (agg = joinError a (filter (\<lambda>e. e \<noteq> nil) errs) \<or>
          filter (\<lambda>e. e \<noteq> nil) errs = [agg])"
    by (auto simp: Join_def Let_def Unwrap_lazyerror)
next
  assume one: "filter (\<lambda>e. e \<noteq> nil) errs = [e]"
  then have "e \<in> set (filter (\<lambda>e. e \<noteq> nil) errs)" by simp
  then have "\<exists>e \<in> set errs. e \<noteq> nil" by auto
  from errors_Join_some [OF this, of sc a] one
  have j: "errors_Join sc a errs \<noteq> nil"
    "errors_Join sc a errs = joinError a [e] \<or> errors_Join sc a errs = e" by auto
  then have "error_Error g rt (errors_Join sc a errs) = error_Error g rt e"
    by auto
  with j show "\<exists>agg. Unwrap (Join cs sc a errs stk) = agg \<and>
         (agg = joinError a [e] \<or> agg = e) \<and> error_Error g rt agg = error_Error g rt e"
    by (simp add: Join_def Let_def Unwrap_lazyerror)
qed

theorem Join_discards_nil_witness:
  "Join test_callsites False 8 [nil, nil] [95, 7] = nil \<and>
   Join test_callsites False 8 [nil, errorString 0 ''err'', nil] [95, 7] =
     lazyerror (joinError 8 [errorString 0 ''err'']) 95 \<and>
   Unwrap (Join test_callsites False 8 [nil, errorString 0 ''err'', nil] [95, 7]) \<noteq> nil \<and>
   Unwrap (Join test_callsites False 8 [nil, errorString 0 ''err'', nil] [95, 7]) =
     joinError 8 [errorString 0 ''err''] \<and>
   error_Error init_globals test_runtime (joinError 8 [errorString 0 ''err'']) = Inr ''err''"
proof -
  have j: "Join test_callsites False 8 [nil, errorString 0 ''err'', nil] [95, 7] =
      lazyerror (joinError 8 [errorString 0 ''err'']) 95"
    by (simp add: Join_def errors_Join_def pc_skips)
  have f: "filter (\<lambda>e. e \<noteq> nil) [nil, errorString 0 ''err'', nil] = [errorString 0 ''err'']"
    by simp
  have all_nil: "\<forall>e \<in> set [nil, nil]. e = nil" by simp
  from Join_discards_nil [of test_callsites False 8 "[nil, nil]" "[95, 7]"] all_nil
  have 1: "Join test_callsites False 8 [nil, nil] [95, 7] = nil" by blast
  from Join_discards_nil [of test_callsites False 8 "[nil, errorString 0 ''err'', nil]"
      "[95, 7]" "errorString 0 ''err''" init_globals test_runtime] f
  have "\<exists>agg. Unwrap (Join test_callsites False 8 [nil, errorString 0 ''err'', nil] [95, 7]) = agg \<and>
      (agg = joinError 8 [errorString 0 ''err''] \<or> agg = errorString 0 ''err'') \<and>
      error_Error init_globals test_runtime agg =
        error_Error init_globals test_runtime (errorString 0 ''err'')"
    by blast
  then have 2: "error_Error init_globals test_runtime (joinError 8 [errorString 0 ''err'']) =
      Inr ''err''"
    by (simp add: j Unwrap_lazyerror)
  have some: "\<exists>e \<in> set [nil, errorString 0 ''err'', nil]. e \<noteq> nil" by simp
  from Join_discards_nil [of test_callsites False 8 "[nil, errorString 0 ''err'', nil]"
      "[95, 7]"] some
  have "\<exists>agg p. agg \<noteq> nil \<and>
      Join test_callsites False 8 [nil, errorString 0 ''err'', nil] [95, 7] = lazyerror agg p \<and>
      Unwrap (Join test_callsites False 8 [nil, errorString 0 ''err'', nil] [95, 7]) = agg \<and>
      (agg = joinError 8 (filter (\<lambda>e. e \<noteq> nil) [nil, errorString 0 ''err'', nil]) \<or>
       filter (\<lambda>e. e \<noteq> nil) [nil, errorString 0 ''err'', nil] = [agg])"
    by blast
  then have 3: "Unwrap (Join test_callsites False 8 [nil, errorString 0 ''err'', nil] [95, 7]) \<noteq> nil"
    by blast
  from 1 2 3 show ?thesis by (simp add: j Unwrap_lazyerror)
qed




text \<open>
  C8, as stated: rendering a wrap before and after a change of \<open>FileSegments\<close> gives
  different strings. It need not: the file of \<open>TestErrors\<close> has four pieces, so with
  \<open>FileSegments\<close> changed from \<open>4\<close> to \<open>5\<close> both renderings show the whole path.
\<close>

theorem render_after_change_counterexample:
  "FileSegments (set_FileSegments 4 init_globals) \<noteq>
     FileSegments (set_FileSegments 5
       (snd (call_Error test_runtime (lazyerror (errorString 0 ''err'') 95)
          (set_FileSegments 4 init_globals)))) \<and>
   fst (call_Error test_runtime (lazyerror (errorString 0 ''err'') 95)
     (set_FileSegments 4 init_globals)) =
   fst (call_Error test_runtime (lazyerror (errorString 0 ''err'') 95)
     (set_FileSegments 5
       (snd (call_Error test_runtime (lazyerror (errorString 0 ''err'') 95)
          (set_FileSegments 4 init_globals)))))"
proof -
  have s4: "shorten ''/absolute/path/lazyerrors_test.go'' 4 = ''/absolute/path/lazyerrors_test.go''"
    by (rule shorten_saturates) (simp_all add: test_file_pieces)
  have s5: "shorten ''/absolute/path/lazyerrors_test.go'' 5 = ''/absolute/path/lazyerrors_test.go''"
    by (rule shorten_saturates) (simp_all add: test_file_pieces)
  show ?thesis
    by (simp add: call_Error_def set_FileSegments_def init_globals_def
        lazyerror_Error_captured [OF test_runtime_captured(1)] test_runtime_frames s4 s5
        del: error_Error.simps(6))
qed

text \<open>
  C8, amended. Rendering reads the package variables at every call and keeps nothing from
  an earlier call: for a wrap with a captured location that was already rendered once, the
  rendering after an assignment to \<open>FileSegments\<close>, \<open>FunctionSegments\<close> or \<open>Format\<close> is the
  format applied to the file and function shortened with the values the variables then
  have, the line, and the message the cause then has.
\<close>

theorem render_reads_current_policy:
  assumes "captured rt p"
  shows
    "snd (call_Error rt (lazyerror cause p) g) = g \<and>
     (error_Error (set_FileSegments n g) rt cause = Inr msg \<longrightarrow>
        fst (call_Error rt (lazyerror cause p)
               (set_FileSegments n (snd (call_Error rt (lazyerror cause p) g)))) =
        Inr (fmt_Sprintf rt (Format g)
               [AnyString (shorten (File (CallersFrames_Next rt p)) n),
                AnyInt (Line (CallersFrames_Next rt p)),
                AnyString (shorten (Function (CallersFrames_Next rt p)) (FunctionSegments g)),
                AnyString msg])) \<and>
     (error_Error (set_FunctionSegments m g) rt cause = Inr msg \<longrightarrow>
        fst (call_Error rt (lazyerror cause p)
               (set_FunctionSegments m (snd (call_Error rt (lazyerror cause p) g)))) =
        Inr (fmt_Sprintf rt (Format g)
               [AnyString (shorten (File (CallersFrames_Next rt p)) (FileSegments g)),
                AnyInt (Line (CallersFrames_Next rt p)),
                AnyString (shorten (Function (CallersFrames_Next rt p)) m),
                AnyString msg])) \<and>
     (error_Error (set_Format f g) rt cause = Inr msg \<longrightarrow>
        fst (call_Error rt (lazyerror cause p)
               (set_Format f (snd (call_Error rt (lazyerror cause p) g)))) =
        Inr (fmt_Sprintf rt f
               [AnyString (shorten (File (CallersFrames_Next rt p)) (FileSegments g)),
                AnyInt (Line (CallersFrames_Next rt p)),
                AnyString (shorten (Function (CallersFrames_Next rt p)) (FunctionSegments g)),
                AnyString msg]))"
  by (simp add: call_Error_def lazyerror_Error_captured [OF assms] set_FileSegments_def
      set_FunctionSegments_def set_Format_def del: error_Error.simps(6))

theorem render_reads_current_policy_witness:
  "fst (call_Error test_runtime (lazyerror (errorString 0 ''err'') 95) init_globals) =
     Inr ''lazyerrors_test.go:95 (lazyerrors.TestErrors): err'' \<and>
   fst (call_Error test_runtime (lazyerror (errorString 0 ''err'') 95)
     (set_FileSegments 0
       (snd (call_Error test_runtime (lazyerror (errorString 0 ''err'') 95) init_globals)))) =
     Inr '':95 (lazyerrors.TestErrors): err'' \<and>
   fst (call_Error test_runtime (lazyerror (errorString 0 ''err'') 95)
     (set_FunctionSegments (- 1)
       (snd (call_Error test_runtime (lazyerror (errorString 0 ''err'') 95) init_globals)))) =
     Inr ''lazyerrors_test.go:95 (github.com/AlekSi/lazyerrors.TestErrors): err'' \<and>
   fst (call_Error test_runtime (lazyerror (errorString 0 ''err'') 95)
     (set_Format ''%[3]s: %[4]s''
       (snd (call_Error test_runtime (lazyerror (errorString 0 ''err'') 95) init_globals)))) =
     Inr ''lazyerrors.TestErrors: err''"
proof -
  let ?e = "lazyerror (errorString 0 ''err'') 95"
  note c = test_runtime_captured(1)
  note f = test_runtime_frames(1)
  note g = init_globals_fields
  have b: "error_Error init_globals test_runtime (errorString 0 ''err'') = Inr ''err''"
    by simp
  have first: "fst (call_Error test_runtime ?e init_globals) =
      Inr ''lazyerrors_test.go:95 (lazyerrors.TestErrors): err''"
    unfolding call_Error_def
    by (simp add: lazyerror_Error_default [OF c b] test_prefixes del: error_Error.simps(6))
  have m: "error_Error g' test_runtime (errorString 0 ''err'') = Inr ''err''" for g'
    by simp
  note t = render_reads_current_policy [OF c, where cause = "errorString 0 ''err''"
      and g = init_globals and n = 0 and m = "- 1" and f = "''%[3]s: %[4]s''" and msg = "''err''"]
  from t [THEN conjunct2, THEN conjunct1, THEN mp, OF m] have 1: "fst (call_Error test_runtime ?e
       (set_FileSegments 0 (snd (call_Error test_runtime ?e init_globals)))) =
     Inr '':95 (lazyerrors.TestErrors): err''"
    by (simp add: f g Sprintf_default test_lines test_shortened shorten_zero)
  from t [THEN conjunct2, THEN conjunct2, THEN conjunct1, THEN mp, OF m]
  have 2: "fst (call_Error test_runtime ?e
       (set_FunctionSegments (- 1) (snd (call_Error test_runtime ?e init_globals)))) =
     Inr ''lazyerrors_test.go:95 (github.com/AlekSi/lazyerrors.TestErrors): err''"
    by (simp add: f g Sprintf_default test_lines test_shortened shorten_negative)
  from t [THEN conjunct2, THEN conjunct2, THEN conjunct2, THEN mp, OF m]
  have 3: "fst (call_Error test_runtime ?e
       (set_Format ''%[3]s: %[4]s'' (snd (call_Error test_runtime ?e init_globals)))) =
     Inr ''lazyerrors.TestErrors: err''"
    by (simp add: f g Sprintf_function_message test_shortened)
  from first 1 2 3 show ?thesis by (simp only: simp_thms)
qed

text \<open>
  C9. \<open>pc\<close> skips its own frame and the frame of the constructor that called it (with the
  frame of \<open>runtime.Callers\<close> itself, the three frames of \<open>runtime.Callers(3, ...)\<close>) and
  returns the program counter of the constructor's caller; and each of \<open>New\<close>, \<open>Error\<close>,
  \<open>Errorf\<close> and \<open>Join\<close> calls \<open>pc\<close> directly, so each stores the return address of its own
  call in the application.
\<close>

theorem pc_captures_caller:
  "runtime_Callers 3 [0] (in_Callers cs # pc_calls_Callers cs # ctor # app # rest) = (1, [app]) \<and>
   pc cs (ctor # app # rest) = app \<and>
   New cs a s (app # rest) = lazyerror (errors_New a s) app \<and>
   (err \<noteq> nil \<longrightarrow> Error cs err (app # rest) = Inr (lazyerror err app)) \<and>
   Errorf cs fmt_Errorf format args (app # rest) = lazyerror (fmt_Errorf format args) app \<and>
   (errors_Join sc a errs \<noteq> nil \<longrightarrow>
      Join cs sc a errs (app # rest) = lazyerror (errors_Join sc a errs) app)"
  by (simp add: New_def Error_def Errorf_def Join_def pc_skips runtime_Callers_def)

theorem pc_captures_caller_witness:
  "pc test_callsites [3, 95, 7] = 95 \<and>
   New test_callsites 8 ''err'' [95, 7] = lazyerror (errorString 8 ''err'') 95 \<and>
   Error test_callsites (errorString 0 ''err'') [95, 7] =
     Inr (lazyerror (errorString 0 ''err'') 95) \<and>
   Errorf test_callsites (\<lambda>format a. errorString a format) ''err'' 0 [95, 7] =
     lazyerror (errorString 0 ''err'') 95 \<and>
   Join test_callsites False 8 [errorString 0 ''err''] [95, 7] =
     lazyerror (joinError 8 [errorString 0 ''err'']) 95"
proof -
  have j: "errors_Join False 8 [errorString 0 ''err''] = joinError 8 [errorString 0 ''err'']"
    by (simp add: errors_Join_def)
  from pc_captures_caller [where cs = test_callsites and ctor = 3 and app = 95 and rest = "[7]"
      and a = 8 and s = "''err''" and err = "errorString 0 ''err''"
      and fmt_Errorf = "\<lambda>format a. errorString a format" and format = "''err''" and args = 0
      and sc = False and errs = "[errorString 0 ''err'']"]
  show ?thesis by (simp add: j errors_New_def)
qed

text \<open>
  C10, as stated: the result of \<open>shorten\<close> is the empty string exactly when \<open>segments\<close> is
  zero. It is not: a path that ends in \<open>/\<close> shortens to the empty string with \<open>segments = 1\<close>.
\<close>

theorem shorten_empty_counterexample:
  "\<not> (shorten ''a/'' 1 = [] \<longleftrightarrow> (1::int) = 0)"
  by (simp add: shorten_one after_last_def)

text \<open>
  C10, amended. \<open>shorten\<close> is a total function, and for every string and every integer its
  result is a suffix of the string, so it holds no character that the string does not hold;
  the result is the empty string whenever \<open>segments\<close> is zero, and the string itself whenever
  \<open>segments\<close> is negative.
\<close>

theorem shorten_suffix_of_path:
  "suffix (shorten path segments) path \<and>
   set (shorten path segments) \<subseteq> set path \<and>
   (segments = 0 \<longrightarrow> shorten path segments = []) \<and>
   (segments < 0 \<longrightarrow> shorten path segments = path)"
  using shorten_suffix [of path segments] set_mono_suffix [of "shorten path segments" path]
  by (simp add: shorten_zero shorten_negative)

theorem shorten_suffix_of_path_witness:
  "suffix (shorten ''a/b.go'' 0) ''a/b.go'' \<and> shorten ''a/b.go'' 0 = [] \<and>
   suffix (shorten ''a/b.go'' (- 1)) ''a/b.go'' \<and> shorten ''a/b.go'' (- 1) = ''a/b.go''"
  using shorten_suffix_of_path [of "''a/b.go''" 0] shorten_suffix_of_path [of "''a/b.go''" "- 1"]
  by simp

end
